theory Spec2Isabelle
  imports Main "HOL-Library.AList" "HOL-Library.Multiset" "HOL-Library.Word"
begin

section \<open>The genqrc resource bundler\<close>

text \<open>
  The development follows \<^verbatim>\<open>cmd/genqrc/main.go\<close>. The source file holds two
  revisions of the command: the first at lines 1--386, the second at lines 388--772.
  Definitions of the second revision carry the suffix \<open>2\<close>; the copies of
  \<^verbatim>\<open>qrcPackResources\<close> inside the template of the generated file carry the
  suffix \<open>_tmpl\<close>.

  The command calls the Go standard library (packages \<^verbatim>\<open>path\<close>,
  \<^verbatim>\<open>path/filepath\<close>, \<^verbatim>\<open>os\<close>, \<^verbatim>\<open>io/ioutil\<close>,
  \<^verbatim>\<open>encoding/xml\<close>). The string functions of \<^verbatim>\<open>path\<close> are written out
  below as the library defines them on a Unix build, where \<^verbatim>\<open>filepath.Separator\<close> is
  \<open>/\<close> and \<^verbatim>\<open>filepath.Join\<close>, \<^verbatim>\<open>filepath.Dir\<close>, \<^verbatim>\<open>filepath.Ext\<close>
  agree with \<^verbatim>\<open>path.Join\<close>, \<^verbatim>\<open>path.Dir\<close>, \<^verbatim>\<open>path.Ext\<close>. The file
  system, the XML decoder, the process environment and the iteration order of Go maps are
  parameters of the model, collected in the record \<open>env\<close>. Lines printed to standard
  output by the first revision are not part of any result and are left out.
\<close>

subsection \<open>Values\<close>

type_synonym bytes = "8 word list"

text \<open>
  Go errors as values: \<^verbatim>\<open>*os.PathError\<close> (operation, path, cause),
  \<^verbatim>\<open>*xml.SyntaxError\<close> (message, line), any other decoding error,
  \<^verbatim>\<open>fmt.Errorf\<close>, and the run-time panic of a nil dereference.
\<close>

datatype error =
    PathError string string string
  | SyntaxError string nat
  | UnmarshalError string
  | Errorf string
  | NilDereference

record FileInfo =
  info_Name :: string
  info_IsDir :: bool

record qrcFile =
  Alias :: string
  Name :: string

record qrcResource =
  Prefix :: string
  Files :: "qrcFile list"

record qrcQrcFile =
  Resources :: "qrcResource list"

subsection \<open>Package path\<close>

text \<open>
  \<^verbatim>\<open>path.Clean\<close>. The output buffer \<^verbatim>\<open>out\<close> is the list of bytes written so
  far, so \<^verbatim>\<open>out.w\<close> is its length and \<^verbatim>\<open>out.w--\<close> drops its last byte. The
  inner loop of the \<^verbatim>\<open>..\<close> case keeps dropping bytes while
  \<^verbatim>\<open>out.w > dotdot && out.index(out.w) != '/'\<close>; \<open>removed\<close> is the byte at index
  \<^verbatim>\<open>out.w\<close>, the one dropped last.
\<close>

function backtrack :: "string \<Rightarrow> char \<Rightarrow> nat \<Rightarrow> string" where
  "backtrack out removed dotdot =
     (if length out > dotdot \<and> removed \<noteq> CHR ''/''
      then backtrack (butlast out) (last out) dotdot
      else out)"
  by pat_completeness auto
termination
  by (relation "measure (\<lambda>(out, removed, dotdot). length out)") auto

declare backtrack.simps [simp del]

definition at_end_or_slash :: "string \<Rightarrow> bool" where
  "at_end_or_slash rest = (case rest of [] \<Rightarrow> True | c # _ \<Rightarrow> c = CHR ''/'')"

function clean_loop :: "bool \<Rightarrow> string \<Rightarrow> string \<Rightarrow> nat \<Rightarrow> string" where
  "clean_loop rooted [] out dotdot = out"
| "clean_loop rooted (c # rest) out dotdot =
     (if c = CHR ''/'' then clean_loop rooted rest out dotdot
      else if c = CHR ''.'' \<and> at_end_or_slash rest then clean_loop rooted rest out dotdot
      else if c = CHR ''.'' \<and> rest \<noteq> [] \<and> hd rest = CHR ''.'' \<and> at_end_or_slash (tl rest) then
        (if length out > dotdot then
           clean_loop rooted (tl rest) (backtrack (butlast out) (last out) dotdot) dotdot
         else if \<not> rooted then
           (let out' = (if length out > 0 then out @ ''/'' else out) @ ''..''
            in clean_loop rooted (tl rest) out' (length out'))
         else clean_loop rooted (tl rest) out dotdot)
      else
        (let out' = (if rooted \<and> length out \<noteq> 1 \<or> \<not> rooted \<and> length out \<noteq> 0
                     then out @ ''/'' else out)
         in clean_loop rooted (dropWhile (\<lambda>x. x \<noteq> CHR ''/'') (c # rest))
              (out' @ takeWhile (\<lambda>x. x \<noteq> CHR ''/'') (c # rest)) dotdot))"
  by pat_completeness auto
termination
  by (relation "measure (\<lambda>(rooted, p, out, dotdot). length p)")
     (auto simp: less_Suc_eq_le length_dropWhile_le le_SucI)

declare clean_loop.simps [simp del]

definition Clean :: "string \<Rightarrow> string" where
  "Clean p =
     (if p = [] then ''.''
      else
        (let rooted = (hd p = CHR ''/'');
             out = (if rooted then clean_loop rooted (tl p) ''/'' 1
                    else clean_loop rooted p [] 0)
         in if length out = 0 then ''.'' else out))"

text \<open>\<^verbatim>\<open>strings.Join(elems, "/")\<close>.\<close>

fun strings_Join :: "string list \<Rightarrow> string" where
  "strings_Join [] = []"
| "strings_Join [e] = e"
| "strings_Join (e # es) = e @ ''/'' @ strings_Join es"

text \<open>
  \<^verbatim>\<open>Join\<close>: the elements from the first non-empty one on, joined by slashes and
  cleaned; the empty string when every element is empty.
\<close>

definition Join :: "string list \<Rightarrow> string" where
  "Join elem =
     (case dropWhile (\<lambda>e. e = []) elem of
        [] \<Rightarrow> []
      | es \<Rightarrow> Clean (strings_Join es))"

text \<open>\<^verbatim>\<open>Dir\<close>: everything up to the last slash, cleaned.\<close>

definition Dir :: "string \<Rightarrow> string" where
  "Dir p = Clean (rev (dropWhile (\<lambda>c. c \<noteq> CHR ''/'') (rev p)))"

text \<open>
  \<^verbatim>\<open>Ext\<close> scans from the end of the path, stops at a slash, and returns the suffix
  that starts at the first dot it meets. \<open>ext_scan\<close> takes the bytes still to scan, last
  byte first, and the bytes already passed.
\<close>

fun ext_scan :: "string \<Rightarrow> string \<Rightarrow> string" where
  "ext_scan [] passed = []"
| "ext_scan (c # earlier) passed =
     (if c = CHR ''/'' then []
      else if c = CHR ''.'' then c # passed
      else ext_scan earlier (c # passed))"

definition Ext :: "string \<Rightarrow> string" where
  "Ext p = ext_scan (rev p) []"

text \<open>\<^verbatim>\<open>filepath.ToSlash\<close> replaces the separator by a slash, and returns its argument
  where the separator is the slash already.\<close>

definition Separator :: char where
  "Separator = CHR ''/''"

definition ToSlash :: "string \<Rightarrow> string" where
  "ToSlash p = (if Separator = CHR ''/'' then p
                else map (\<lambda>c. if c = Separator then CHR ''/'' else c) p)"

text \<open>
  \<^verbatim>\<open>basename\<close> of package \<^verbatim>\<open>os\<close>, which \<^verbatim>\<open>os.Lstat\<close> stores as the name of the
  \<^verbatim>\<open>FileInfo\<close> it returns: trailing slashes are removed (never the first byte), then
  the directory part up to the last slash before the final byte.
\<close>

fun strip_trailing :: "string \<Rightarrow> string" where
  "strip_trailing [] = []"
| "strip_trailing [c] = [c]"
| "strip_trailing (c # d # rev_rest) =
     (if c = CHR ''/'' then strip_trailing (d # rev_rest) else c # d # rev_rest)"

definition basename :: "string \<Rightarrow> string" where
  "basename name =
     (case strip_trailing (rev name) of
        [] \<Rightarrow> []
      | l # rev_body \<Rightarrow> rev (takeWhile (\<lambda>c. c \<noteq> CHR ''/'') rev_body) @ [l])"

subsection \<open>The environment\<close>

text \<open>
  What \<^verbatim>\<open>os.Lstat\<close> and \<^verbatim>\<open>readDirNames\<close> of \<^verbatim>\<open>path/filepath\<close> report
  below a path: the path cannot be examined, it is not a directory, it is a directory
  whose names cannot be read, or it is a directory with its names in the order
  \<^verbatim>\<open>readDirNames\<close> returns them (sorted), each with what is found under it.
\<close>

datatype fsnode =
    NoStat error
  | FileNode
  | DirErr error
  | DirNode entries
and entries =
    ENil
  | ECons string fsnode entries

record templateData =
  PackageName :: string
  SubDirs :: "string list"
  ResourcesData :: bytes

text \<open>
  The parameters: the tree \<^verbatim>\<open>filepath.Walk\<close> finds at a root, \<^verbatim>\<open>ioutil.ReadFile\<close>,
  \<^verbatim>\<open>xml.Unmarshal\<close> into a \<^verbatim>\<open>qrcQrcFile\<close>, the order in which a
  \<^verbatim>\<open>range\<close> clause visits the entries of a map (which Go leaves unspecified),
  \<^verbatim>\<open>os.Getenv\<close>, the value of the flag \<^verbatim>\<open>-package\<close>, \<^verbatim>\<open>os.Create\<close> and
  the execution of the template on the created file. \<open>rangeOrder\<close> gives the order by
  the entries of the map: a run that ranges over two maps with the same entries is taken
  to visit them in the same order.
\<close>

record env =
  Lstat :: "string \<Rightarrow> fsnode"
  ReadFile :: "string \<Rightarrow> error + bytes"
  Unmarshal :: "bytes \<Rightarrow> error + qrcQrcFile"
  rangeOrder :: "(string \<times> string) list \<Rightarrow> (string \<times> string) list"
  Getenv :: "string \<Rightarrow> string"
  packageName :: string
  Create :: "string \<Rightarrow> error option"
  Execute :: "templateData \<Rightarrow> error option"

subsection \<open>filepath.Walk\<close>

text \<open>
  The callback receives the path, the file information (nil when \<^verbatim>\<open>Lstat\<close> failed)
  and the error met at that path, and returns an error or the new state. None of the
  callbacks below returns \<^verbatim>\<open>filepath.SkipDir\<close>, so the library's tests for it are
  left out. A failed \<^verbatim>\<open>Lstat\<close> is reported to the callback, at the root by
  \<^verbatim>\<open>Walk\<close> and below it by the loop of \<^verbatim>\<open>walk\<close>; both are the first equation.
\<close>

type_synonym 's WalkFunc = "string \<Rightarrow> FileInfo option \<Rightarrow> error option \<Rightarrow> 's \<Rightarrow> error + 's"

fun walk :: "string \<Rightarrow> fsnode \<Rightarrow> 's WalkFunc \<Rightarrow> 's \<Rightarrow> error + 's"
and walk_names :: "string \<Rightarrow> entries \<Rightarrow> 's WalkFunc \<Rightarrow> 's \<Rightarrow> error + 's" where
  "walk path (NoStat err) walkFn s = walkFn path None (Some err) s"
| "walk path FileNode walkFn s =
     walkFn path (Some \<lparr>info_Name = basename path, info_IsDir = False\<rparr>) None s"
| "walk path (DirErr err) walkFn s =
     walkFn path (Some \<lparr>info_Name = basename path, info_IsDir = True\<rparr>) (Some err) s"
| "walk path (DirNode names) walkFn s =
     (case walkFn path (Some \<lparr>info_Name = basename path, info_IsDir = True\<rparr>) None s of
        Inl err1 \<Rightarrow> Inl err1
      | Inr s' \<Rightarrow> walk_names path names walkFn s')"
| "walk_names path ENil walkFn s = Inr s"
| "walk_names path (ECons name node names) walkFn s =
     (let filename = Join [path, name] in
      case walk filename node walkFn s of
        Inl err \<Rightarrow> Inl err
      | Inr s' \<Rightarrow> walk_names path names walkFn s')"

definition Walk :: "env \<Rightarrow> string \<Rightarrow> 's WalkFunc \<Rightarrow> 's \<Rightarrow> error + 's" where
  "Walk e root walkFn s = walk root (Lstat e root) walkFn s"

subsection \<open>The resources packer\<close>

text \<open>
  Modelled from the spec: \<^verbatim>\<open>qml.ResourcesPacker\<close>, its methods \<^verbatim>\<open>Add\<close> and
  \<^verbatim>\<open>Pack\<close>, and \<^verbatim>\<open>qml.ParseResourcesString\<close> belong to package
  \<^verbatim>\<open>gopkg.in/qml.v1\<close>, which is not among the sources. The specification has the packer
  append each pair of label and content in the order supplied and serialise the pairs as
  a length-prefixed concatenation of entries, which a consumer reads back into the
  mapping from label to content, the last write winning on a repeated label. A length
  is written in base 128, low digit first, the top bit of a byte saying that another
  digit follows.
\<close>

type_synonym ResourcesPacker = "(string \<times> bytes) list"

definition Add :: "string \<Rightarrow> bytes \<Rightarrow> ResourcesPacker \<Rightarrow> ResourcesPacker" where
  "Add label data rp = rp @ [(label, data)]"

fun put_len :: "nat \<Rightarrow> bytes" where
  "put_len n = (if n < 128 then [of_nat n] else of_nat (128 + n mod 128) # put_len (n div 128))"

declare put_len.simps [simp del]

fun get_len :: "bytes \<Rightarrow> (nat \<times> bytes) option" where
  "get_len [] = None"
| "get_len (b # bs) =
     (if unat b < 128 then Some (unat b, bs)
      else case get_len bs of
             None \<Rightarrow> None
           | Some (m, rest) \<Rightarrow> Some (unat b - 128 + 128 * m, rest))"

definition string_bytes :: "string \<Rightarrow> bytes" where
  "string_bytes s = map (\<lambda>c. of_nat (of_char c)) s"

definition bytes_string :: "bytes \<Rightarrow> string" where
  "bytes_string bs = map (\<lambda>b. char_of (unat b)) bs"

definition put_entry :: "string \<times> bytes \<Rightarrow> bytes" where
  "put_entry p = put_len (length (fst p)) @ string_bytes (fst p)
                 @ put_len (length (snd p)) @ snd p"

definition Pack :: "ResourcesPacker \<Rightarrow> bytes" where
  "Pack rp = concat (map put_entry rp)"

text \<open>One field: a length, then that many bytes; nothing when the stream is too short.\<close>

definition get_field :: "bytes \<Rightarrow> (bytes \<times> bytes) option" where
  "get_field bs =
     (case get_len bs of
        None \<Rightarrow> None
      | Some (n, rest) \<Rightarrow> if length rest < n then None else Some (take n rest, drop n rest))"

text \<open>
  The entries of a stream, in stream order. \<open>fuel\<close> bounds the number of entries read;
  every entry takes at least two bytes, so the length of the stream is fuel enough.
\<close>

fun get_entries :: "nat \<Rightarrow> bytes \<Rightarrow> (string \<times> bytes) list option" where
  "get_entries fuel [] = Some []"
| "get_entries 0 (b # bs) = None"
| "get_entries (Suc fuel) (b # bs) =
     (case get_field (b # bs) of
        None \<Rightarrow> None
      | Some (l, rest) \<Rightarrow>
          (case get_field rest of
             None \<Rightarrow> None
           | Some (d, rest') \<Rightarrow>
               (case get_entries fuel rest' of
                  None \<Rightarrow> None
                | Some es \<Rightarrow> Some ((bytes_string l, d) # es))))"

definition ParseResources :: "bytes \<Rightarrow> (string \<rightharpoonup> bytes) option" where
  "ParseResources bs =
     map_option (\<lambda>es. fold (\<lambda>p m. m(fst p \<mapsto> snd p)) es Map.empty)
       (get_entries (length bs) bs)"

subsection \<open>Loops that return at the first error\<close>

text \<open>
  A \<^verbatim>\<open>for ... range\<close> loop over a list whose body may return an error from the
  enclosing function: the body runs on each element in turn, on the state the previous
  one left, and the first error ends the loop.
\<close>

fun for_each :: "'a list \<Rightarrow> ('a \<Rightarrow> 's \<Rightarrow> error + 's) \<Rightarrow> 's \<Rightarrow> error + 's" where
  "for_each [] body s = Inr s"
| "for_each (x # xs) body s =
     (case body x s of
        Inl err \<Rightarrow> Inl err
      | Inr s' \<Rightarrow> for_each xs body s')"

subsection \<open>First revision: the tool (lines 112--248)\<close>

text \<open>
  \<^verbatim>\<open>qrcParseQrc\<close> returns a Go map from label to file name. The map is an
  association list with one pair for each key; \<^verbatim>\<open>out[label] = v\<close> is
  \<open>AList.update\<close>. The order of the list is not the order of a \<^verbatim>\<open>range\<close> over
  the map: that order is \<open>rangeOrder\<close> of the environment.
\<close>

definition qrcParseQrc :: "env \<Rightarrow> string \<Rightarrow> error + (string \<times> string) list" where
  "qrcParseQrc e name =
     (case ReadFile e name of
        Inl err \<Rightarrow> Inl err
      | Inr data \<Rightarrow>
          (let dir = Dir name in
           case Unmarshal e data of
             Inl err \<Rightarrow> Inl err
           | Inr qrc \<Rightarrow>
               Inr (fold
                      (\<lambda>resource.
                         fold
                           (\<lambda>file out.
                              let label = Join [Prefix resource, Name file];
                                  label = (if Alias file \<noteq> []
                                           then Join [Prefix resource, Alias file]
                                           else label)
                              in AList.update label (Join [dir, Name file]) out)
                           (Files resource))
                      (Resources qrc) [])))"

text \<open>The function literal passed to \<^verbatim>\<open>filepath.Walk\<close>; the packer \<^verbatim>\<open>rp\<close> it
  captures is the state.\<close>

definition walkFn :: "env \<Rightarrow> ResourcesPacker WalkFunc" where
  "walkFn e name info err rp =
     (case err of
        Some err \<Rightarrow> Inl err
      | None \<Rightarrow>
          (let ext = Ext name in
           case info of
             None \<Rightarrow> Inl NilDereference
           | Some info \<Rightarrow>
               if info_IsDir info then Inr rp
               else if info_Name info = ''qmldir'' then Inr rp
               else if ext = ''.qmltypes'' then Inr rp
               else if ext = ''.pri'' then Inr rp
               else if ext = ''.qrc'' then
                 (case qrcParseQrc e name of
                    Inl err \<Rightarrow> Inl err
                  | Inr files \<Rightarrow>
                      for_each (rangeOrder e files)
                        (\<lambda>(label, filename) rp.
                           case ReadFile e filename of
                             Inl err \<Rightarrow> Inl err
                           | Inr data \<Rightarrow> Inr (Add label data rp))
                        rp)
               else
                 (case ReadFile e name of
                    Inl err \<Rightarrow> Inl err
                  | Inr data \<Rightarrow> Inr (Add (ToSlash name) data rp))))"

text \<open>\<open>qrcPackResources_rp\<close> is the packer when the loop over \<^verbatim>\<open>subdirs\<close> is done;
  \<open>qrcPackResources\<close> returns \<^verbatim>\<open>rp.Pack().Bytes()\<close>.\<close>

definition qrcPackResources_rp :: "env \<Rightarrow> string list \<Rightarrow> error + ResourcesPacker" where
  "qrcPackResources_rp e subdirs =
     for_each subdirs (\<lambda>subdir. Walk e subdir (walkFn e)) []"

definition qrcPackResources :: "env \<Rightarrow> string list \<Rightarrow> error + bytes" where
  "qrcPackResources e subdirs =
     (case qrcPackResources_rp e subdirs of
        Inl err \<Rightarrow> Inl err
      | Inr rp \<Rightarrow> Inr (Pack rp))"

text \<open>
  \<^verbatim>\<open>run\<close>: what it returns, the files it has created and the data the template was
  executed on.
\<close>

record run_result =
  returned :: "error option"
  created :: "string list"
  executed :: "templateData option"

definition run :: "env \<Rightarrow> string list \<Rightarrow> run_result" where
  "run e args =
     (let subdirs = args in
      if length subdirs = 0 then
        \<lparr>returned = Some (Errorf ''must provide at least one path''),
         created = [], executed = None\<rparr>
      else
        case qrcPackResources e subdirs of
          Inl err \<Rightarrow> \<lparr>returned = Some err, created = [], executed = None\<rparr>
        | Inr resdata \<Rightarrow>
            (case Create e ''qrc.go'' of
               Some err \<Rightarrow> \<lparr>returned = Some err, created = [], executed = None\<rparr>
             | None \<Rightarrow>
                 (let data = \<lparr>PackageName = packageName e, SubDirs = subdirs,
                              ResourcesData = resdata\<rparr>;
                      pkgname = Getenv e ''GOPACKAGE'';
                      data = (if pkgname \<noteq> [] then data\<lparr>PackageName := pkgname\<rparr> else data)
                  in \<lparr>returned = Execute e data, created = [''qrc.go''],
                      executed = Some data\<rparr>)))"

subsection \<open>First revision: the generated file (lines 274--385)\<close>

definition qrcParseQrc_tmpl :: "env \<Rightarrow> string \<Rightarrow> error + (string \<times> string) list" where
  "qrcParseQrc_tmpl e name =
     (case ReadFile e name of
        Inl err \<Rightarrow> Inl err
      | Inr data \<Rightarrow>
          (let dir = Dir name in
           case Unmarshal e data of
             Inl err \<Rightarrow> Inl err
           | Inr qrc \<Rightarrow>
               Inr (fold
                      (\<lambda>resource.
                         fold
                           (\<lambda>file out.
                              let label = Join [Prefix resource, Name file];
                                  label = (if Alias file \<noteq> []
                                           then Join [Prefix resource, Alias file]
                                           else label)
                              in AList.update label (Join [dir, Name file]) out)
                           (Files resource))
                      (Resources qrc) [])))"

definition walkFn_tmpl :: "env \<Rightarrow> ResourcesPacker WalkFunc" where
  "walkFn_tmpl e name info err rp =
     (case err of
        Some err \<Rightarrow> Inl err
      | None \<Rightarrow>
          (let ext = Ext name in
           case info of
             None \<Rightarrow> Inl NilDereference
           | Some info \<Rightarrow>
               if info_IsDir info then Inr rp
               else if info_Name info = ''qmldir'' then Inr rp
               else if ext = ''.qmltypes'' then Inr rp
               else if ext = ''.pri'' then Inr rp
               else if ext = ''.qrc'' then
                 (case qrcParseQrc_tmpl e name of
                    Inl err \<Rightarrow> Inl err
                  | Inr files \<Rightarrow>
                      for_each (rangeOrder e files)
                        (\<lambda>(label, filename) rp.
                           case ReadFile e filename of
                             Inl err \<Rightarrow> Inl err
                           | Inr data \<Rightarrow> Inr (Add label data rp))
                        rp)
               else
                 (case ReadFile e name of
                    Inl err \<Rightarrow> Inl err
                  | Inr data \<Rightarrow> Inr (Add (ToSlash name) data rp))))"

definition qrcPackResources_tmpl_rp :: "env \<Rightarrow> string list \<Rightarrow> error + ResourcesPacker" where
  "qrcPackResources_tmpl_rp e subdirs =
     for_each subdirs (\<lambda>subdir. Walk e subdir (walkFn_tmpl e)) []"

definition qrcPackResources_tmpl :: "env \<Rightarrow> string list \<Rightarrow> error + bytes" where
  "qrcPackResources_tmpl e subdirs =
     (case qrcPackResources_tmpl_rp e subdirs of
        Inl err \<Rightarrow> Inl err
      | Inr rp \<Rightarrow> Inr (Pack rp))"

text \<open>
  \<^verbatim>\<open>init\<close> of the generated file, for the template data it was generated from. It
  panics with a message and the error, or hands the parsed resources to
  \<^verbatim>\<open>qml.LoadResources\<close>.
\<close>

datatype init_result =
    Panic string "error option"
  | LoadResources "string \<rightharpoonup> bytes"

definition init :: "env \<Rightarrow> templateData \<Rightarrow> init_result" where
  "init e d =
     (let qrcResourcesData = ResourcesData d in
      case (if Getenv e ''QRC_REPACK'' = ''1'' then
              (case qrcPackResources_tmpl e (SubDirs d) of
                 Inl err \<Rightarrow> Inl err
               | Inr data \<Rightarrow> Inr data)
            else Inr qrcResourcesData) of
        Inl err \<Rightarrow> Panic ''cannot repack qrc resources: '' (Some err)
      | Inr qrcResourcesData \<Rightarrow>
          (case ParseResources qrcResourcesData of
             None \<Rightarrow> Panic ''cannot parse bundled resources data: '' None
           | Some r \<Rightarrow> LoadResources r))"

subsection \<open>Second revision: the tool (lines 501--636)\<close>

definition qrcParseQrc2 :: "env \<Rightarrow> string \<Rightarrow> error + (string \<times> string) list" where
  "qrcParseQrc2 e name =
     (case ReadFile e name of
        Inl err \<Rightarrow> Inl err
      | Inr data \<Rightarrow>
          (let dir = Dir name in
           case Unmarshal e data of
             Inl err \<Rightarrow> Inl err
           | Inr qrc \<Rightarrow>
               Inr (fold
                      (\<lambda>resource.
                         fold
                           (\<lambda>file out.
                              let label = Name file;
                                  label = (if Alias file \<noteq> [] then Alias file else label)
                              in AList.update (Join [Prefix resource, label])
                                   (Join [dir, Name file]) out)
                           (Files resource))
                      (Resources qrc) [])))"

definition walkFn2 :: "env \<Rightarrow> ResourcesPacker WalkFunc" where
  "walkFn2 e name info err rp =
     (case err of
        Some err \<Rightarrow> Inl err
      | None \<Rightarrow>
          (case info of
             None \<Rightarrow> Inl NilDereference
           | Some info \<Rightarrow>
               if info_IsDir info then Inr rp
               else if info_Name info = ''qmldir'' then Inr rp
               else
                 (let ext = Ext name in
                  if ext = ''.qmltypes'' then Inr rp
                  else if ext = ''.qrc'' then
                    (case qrcParseQrc2 e name of
                       Inl err \<Rightarrow> Inl err
                     | Inr files \<Rightarrow>
                         for_each (rangeOrder e files)
                           (\<lambda>(label, filename) rp.
                              case ReadFile e filename of
                                Inl err \<Rightarrow> Inl err
                              | Inr data \<Rightarrow> Inr (Add label data rp))
                           rp)
                  else
                    (case ReadFile e name of
                       Inl err \<Rightarrow> Inl err
                     | Inr data \<Rightarrow> Inr (Add (ToSlash name) data rp)))))"

definition qrcPackResources2_rp :: "env \<Rightarrow> string list \<Rightarrow> error + ResourcesPacker" where
  "qrcPackResources2_rp e subdirs =
     for_each subdirs (\<lambda>subdir. Walk e subdir (walkFn2 e)) []"

definition qrcPackResources2 :: "env \<Rightarrow> string list \<Rightarrow> error + bytes" where
  "qrcPackResources2 e subdirs =
     (case qrcPackResources2_rp e subdirs of
        Inl err \<Rightarrow> Inl err
      | Inr rp \<Rightarrow> Inr (Pack rp))"

definition run2 :: "env \<Rightarrow> string list \<Rightarrow> run_result" where
  "run2 e args =
     (let subdirs = args in
      if length subdirs = 0 then
        \<lparr>returned = Some (Errorf ''must provide at least one path''),
         created = [], executed = None\<rparr>
      else
        case qrcPackResources2 e subdirs of
          Inl err \<Rightarrow> \<lparr>returned = Some err, created = [], executed = None\<rparr>
        | Inr resdata \<Rightarrow>
            (case Create e ''qrc.go'' of
               Some err \<Rightarrow> \<lparr>returned = Some err, created = [], executed = None\<rparr>
             | None \<Rightarrow>
                 (let data = \<lparr>PackageName = packageName e, SubDirs = subdirs,
                              ResourcesData = resdata\<rparr>;
                      pkgname = Getenv e ''GOPACKAGE'';
                      data = (if pkgname \<noteq> [] then data\<lparr>PackageName := pkgname\<rparr> else data)
                  in \<lparr>returned = Execute e data, created = [''qrc.go''],
                      executed = Some data\<rparr>)))"

subsection \<open>Second revision: the generated file (lines 662--771)\<close>

definition qrcParseQrc2_tmpl :: "env \<Rightarrow> string \<Rightarrow> error + (string \<times> string) list" where
  "qrcParseQrc2_tmpl e name =
     (case ReadFile e name of
        Inl err \<Rightarrow> Inl err
      | Inr data \<Rightarrow>
          (let base = Dir name in
           case Unmarshal e data of
             Inl err \<Rightarrow> Inl err
           | Inr qrc \<Rightarrow>
               Inr (fold
                      (\<lambda>resource.
                         fold
                           (\<lambda>file out.
                              let label = Name file;
                                  label = (if Alias file \<noteq> [] then Alias file else label)
                              in AList.update (Join [Prefix resource, label])
                                   (Join [base, Name file]) out)
                           (Files resource))
                      (Resources qrc) [])))"

definition walkFn2_tmpl :: "env \<Rightarrow> ResourcesPacker WalkFunc" where
  "walkFn2_tmpl e name info err rp =
     (case err of
        Some err \<Rightarrow> Inl err
      | None \<Rightarrow>
          (case info of
             None \<Rightarrow> Inl NilDereference
           | Some info \<Rightarrow>
               if info_IsDir info then Inr rp
               else if info_Name info = ''qmldir'' then Inr rp
               else
                 (let ext = Ext name in
                  if ext = ''.qmltypes'' then Inr rp
                  else if ext = ''.qrc'' then
                    (case qrcParseQrc2_tmpl e name of
                       Inl err \<Rightarrow> Inl err
                     | Inr files \<Rightarrow>
                         for_each (rangeOrder e files)
                           (\<lambda>(label, filename) rp.
                              case ReadFile e filename of
                                Inl err \<Rightarrow> Inl err
                              | Inr data \<Rightarrow> Inr (Add label data rp))
                           rp)
                  else
                    (case ReadFile e name of
                       Inl err \<Rightarrow> Inl err
                     | Inr data \<Rightarrow> Inr (Add (ToSlash name) data rp)))))"

definition qrcPackResources2_tmpl_rp :: "env \<Rightarrow> string list \<Rightarrow> error + ResourcesPacker" where
  "qrcPackResources2_tmpl_rp e subdirs =
     for_each subdirs (\<lambda>subdir. Walk e subdir (walkFn2_tmpl e)) []"

definition qrcPackResources2_tmpl :: "env \<Rightarrow> string list \<Rightarrow> error + bytes" where
  "qrcPackResources2_tmpl e subdirs =
     (case qrcPackResources2_tmpl_rp e subdirs of
        Inl err \<Rightarrow> Inl err
      | Inr rp \<Rightarrow> Inr (Pack rp))"

definition init2 :: "env \<Rightarrow> templateData \<Rightarrow> init_result" where
  "init2 e d =
     (let qrcResourcesData = ResourcesData d in
      case (if Getenv e ''QRC_REPACK'' = ''1'' then
              (case qrcPackResources2_tmpl e (SubDirs d) of
                 Inl err \<Rightarrow> Inl err
               | Inr data \<Rightarrow> Inr data)
            else Inr qrcResourcesData) of
        Inl err \<Rightarrow> Panic ''cannot repack qrc resources: '' (Some err)
      | Inr qrcResourcesData \<Rightarrow>
          (case ParseResources qrcResourcesData of
             None \<Rightarrow> Panic ''cannot parse bundled resources data: '' None
           | Some r \<Rightarrow> LoadResources r))"

subsection \<open>Notions used to state the properties\<close>

text \<open>
  The calls \<^verbatim>\<open>filepath.Walk\<close> makes to its callback on a tree, in order, as long as
  the callback returns nil: path, file information and error of each call.
\<close>

type_synonym visit = "string \<times> FileInfo option \<times> error option"

fun visits :: "string \<Rightarrow> fsnode \<Rightarrow> visit list"
and visits_names :: "string \<Rightarrow> entries \<Rightarrow> visit list" where
  "visits path (NoStat err) = [(path, None, Some err)]"
| "visits path FileNode =
     [(path, Some \<lparr>info_Name = basename path, info_IsDir = False\<rparr>, None)]"
| "visits path (DirErr err) =
     [(path, Some \<lparr>info_Name = basename path, info_IsDir = True\<rparr>, Some err)]"
| "visits path (DirNode names) =
     (path, Some \<lparr>info_Name = basename path, info_IsDir = True\<rparr>, None)
     # visits_names path names"
| "visits_names path ENil = []"
| "visits_names path (ECons name node names) =
     visits (Join [path, name]) node @ visits_names path names"

definition all_visits :: "env \<Rightarrow> string list \<Rightarrow> visit list" where
  "all_visits e subdirs = concat (map (\<lambda>subdir. visits subdir (Lstat e subdir)) subdirs)"

text \<open>What a callback adds at one visit, or the error it returns there.\<close>

definition adds_at :: "ResourcesPacker WalkFunc \<Rightarrow> visit \<Rightarrow> error + ResourcesPacker" where
  "adds_at callback v = (case v of (name, info, err) \<Rightarrow> callback name info err [])"

text \<open>A \<^verbatim>\<open>range\<close> clause visits every entry of the map once, in some order.\<close>

definition range_ok :: "env \<Rightarrow> bool" where
  "range_ok e = (\<forall>files. mset (rangeOrder e files) = mset files)"

text \<open>Two runs find the same file system and use the same decoder.\<close>

definition same_files :: "env \<Rightarrow> env \<Rightarrow> bool" where
  "same_files e1 e2 =
     (Lstat e1 = Lstat e2 \<and> ReadFile e1 = ReadFile e2 \<and> Unmarshal e1 = Unmarshal e2)"

text \<open>
  The bindings a manifest declares, in document order, in the words of the
  specification: the label joins the prefix of the group and the alias, or the file name
  when there is no alias; the source path joins the directory of the manifest and the
  file name.
\<close>

definition entry_label :: "qrcResource \<Rightarrow> qrcFile \<Rightarrow> string" where
  "entry_label resource file =
     Join [Prefix resource, if Alias file \<noteq> [] then Alias file else Name file]"

definition entry_source :: "string \<Rightarrow> qrcFile \<Rightarrow> string" where
  "entry_source manifest file = Join [Dir manifest, Name file]"

definition manifest_bindings :: "string \<Rightarrow> qrcQrcFile \<Rightarrow> (string \<times> string) list" where
  "manifest_bindings manifest qrc =
     concat (map (\<lambda>resource. map (\<lambda>file. (entry_label resource file,
                                            entry_source manifest file))
                                (Files resource))
                 (Resources qrc))"



text \<open>The path an error names: the field \<^verbatim>\<open>Path\<close> of a \<^verbatim>\<open>*os.PathError\<close>.\<close>

fun error_path :: "error \<Rightarrow> string option" where
  "error_path (PathError op path cause) = Some path"
| "error_path err = None"

text \<open>
  A call of the callback of the first revision that meets one of the failures of the
  specification: the walk reports an error for the path; the path is a manifest that
  cannot be read or decoded, or one of the files it binds cannot be read; the path is
  a file to bind that cannot be read.
\<close>

definition offending :: "env \<Rightarrow> visit \<Rightarrow> bool" where
  "offending e v =
     (case v of (name, info, err) \<Rightarrow>
        err \<noteq> None \<or>
        (case info of
           None \<Rightarrow> False
         | Some info \<Rightarrow>
             \<not> info_IsDir info \<and> info_Name info \<noteq> ''qmldir''
             \<and> Ext name \<noteq> ''.qmltypes'' \<and> Ext name \<noteq> ''.pri''
             \<and> (if Ext name = ''.qrc'' then
                    (case qrcParseQrc e name of
                       Inl err \<Rightarrow> True
                     | Inr files \<Rightarrow> \<exists>p \<in> set files. isl (ReadFile e (snd p)))
                  else isl (ReadFile e name))))"

subsection \<open>A sample environment\<close>

text \<open>
  A small file system on which the theorems below are tried out. The directory
  \<^verbatim>\<open>dir\<close> holds \<^verbatim>\<open>a.png\<close>, \<^verbatim>\<open>qmldir\<close>, the manifest \<^verbatim>\<open>res.qrc\<close>,
  \<^verbatim>\<open>x.pri\<close>, \<^verbatim>\<open>x.qmltypes\<close> and \<^verbatim>\<open>y.txt\<close>. Beside it lie \<^verbatim>\<open>a.png\<close>,
  \<^verbatim>\<open>b.png\<close>, the manifest \<^verbatim>\<open>dup.qrc\<close>, which gives both the alias \<^verbatim>\<open>x\<close>, and
  the truncated manifests \<^verbatim>\<open>bad.qrc\<close> and \<^verbatim>\<open>other/bad.qrc\<close>. \<^verbatim>\<open>/a\<close> is a
  file named by an absolute path. Every other path does not exist.
\<close>

definition res_qrc :: bytes where
  \<open>res_qrc = string_bytes
     ''<RCC><qresource prefix="images"><file alias="icon.png">a.png</file><file>y.txt</file></qresource></RCC>''\<close>

definition dup_qrc :: bytes where
  \<open>dup_qrc = string_bytes
     ''<RCC><qresource><file alias="x">a.png</file><file alias="x">b.png</file></qresource></RCC>''\<close>

definition bad_qrc :: bytes where
  \<open>bad_qrc = string_bytes ''<RCC''\<close>

definition sample_Lstat :: "string \<Rightarrow> fsnode" where
  "sample_Lstat p =
     (if p = ''dir'' then
        DirNode (ECons ''a.png'' FileNode (ECons ''qmldir'' FileNode
                (ECons ''res.qrc'' FileNode (ECons ''x.pri'' FileNode
                (ECons ''x.qmltypes'' FileNode (ECons ''y.txt'' FileNode ENil))))))
      else if p \<in> {''dir/res.qrc'', ''dup.qrc'', ''bad.qrc'', ''other/bad.qrc'', ''/a''}
      then FileNode
      else NoStat (PathError ''lstat'' p ''no such file or directory''))"

definition sample_ReadFile :: "string \<Rightarrow> error + bytes" where
  "sample_ReadFile p =
     (if p = ''dir/a.png'' then Inr [137, 80, 78, 71]
      else if p = ''dir/y.txt'' then Inr (string_bytes ''hi'')
      else if p = ''dir/res.qrc'' then Inr res_qrc
      else if p \<in> {''dir/qmldir'', ''dir/x.pri'', ''dir/x.qmltypes''} then Inr []
      else if p = ''a.png'' then Inr [1]
      else if p = ''b.png'' then Inr [2]
      else if p = ''dup.qrc'' then Inr dup_qrc
      else if p \<in> {''bad.qrc'', ''other/bad.qrc''} then Inr bad_qrc
      else if p = ''/a'' then Inr [7]
      else Inl (PathError ''open'' p ''no such file or directory''))"

definition sample_Unmarshal :: "bytes \<Rightarrow> error + qrcQrcFile" where
  "sample_Unmarshal data =
     (if data = bad_qrc then Inl (SyntaxError ''unexpected EOF'' 1)
      else if data = dup_qrc then
        Inr \<lparr>Resources = [\<lparr>Prefix = [], Files = [\<lparr>Alias = ''x'', Name = ''a.png''\<rparr>,
                                                   \<lparr>Alias = ''x'', Name = ''b.png''\<rparr>]\<rparr>]\<rparr>
      else if data = res_qrc then
        Inr \<lparr>Resources = [\<lparr>Prefix = ''images'',
                           Files = [\<lparr>Alias = ''icon.png'', Name = ''a.png''\<rparr>,
                                    \<lparr>Alias = [], Name = ''y.txt''\<rparr>]\<rparr>]\<rparr>
      else Inl (UnmarshalError ''EOF''))"

definition sample :: env where
  "sample = \<lparr>Lstat = sample_Lstat, ReadFile = sample_ReadFile,
             Unmarshal = sample_Unmarshal, rangeOrder = (\<lambda>files. files),
             Getenv = (\<lambda>key. []), packageName = ''main'',
             Create = (\<lambda>name. None), Execute = (\<lambda>data. None)\<rparr>"

text \<open>The same file system in a run whose maps are ranged over in the opposite order.\<close>

definition sample_rev :: env where
  "sample_rev = sample\<lparr>rangeOrder := rev\<rparr>"

text \<open>The sample environment with \<^verbatim>\<open>QRC_REPACK\<close> set to \<^verbatim>\<open>1\<close>, and to
  \<^verbatim>\<open>true\<close>.\<close>

definition sample_repack :: env where
  "sample_repack = sample\<lparr>Getenv := (\<lambda>key. if key = ''QRC_REPACK'' then ''1'' else [])\<rparr>"

definition sample_true :: env where
  "sample_true = sample\<lparr>Getenv := (\<lambda>key. if key = ''QRC_REPACK'' then ''true'' else [])\<rparr>"

section \<open>Properties\<close>

subsection \<open>Loops and the walk\<close>

lemma for_each_append:
  "for_each (xs @ ys) body s =
     (case for_each xs body s of Inl err \<Rightarrow> Inl err | Inr s' \<Rightarrow> for_each ys body s')"
  by (induction xs arbitrary: s) (auto split: sum.splits)

lemma for_each_concat:
  "for_each (concat xss) body s = for_each xss (\<lambda>xs. for_each xs body) s"
  by (induction xss arbitrary: s) (auto simp: for_each_append split: sum.splits)

lemma for_each_Inl:
  "for_each xs body s = Inl err \<Longrightarrow> \<exists>x \<in> set xs. \<exists>s'. body x s' = Inl err"
  by (induction xs arbitrary: s) (auto split: sum.splits)

text \<open>A walk is the loop over its visits.\<close>

lemma walk_visits:
  "walk path node fn s = for_each (visits path node) (\<lambda>(n, i, x). fn n i x) s"
  "walk_names path names fn s = for_each (visits_names path names) (\<lambda>(n, i, x). fn n i x) s"
  by (induction path node fn s and path names fn s rule: walk_walk_names.induct)
     (auto simp: for_each_append split: sum.splits)

subsection \<open>The map a manifest is parsed into\<close>

lemma fold_bindings:
  "fold (\<lambda>r. fold (\<lambda>f. AList.update (lab r f) (src f)) (fs r)) rs out
   = fold (\<lambda>b. AList.update (fst b) (snd b))
       (concat (map (\<lambda>r. map (\<lambda>f. (lab r f, src f)) (fs r)) rs)) out"
  by (induction rs arbitrary: out) (simp_all add: fold_map comp_def)

lemma entry_label_if:
  "entry_label resource file =
     (if Alias file \<noteq> [] then Join [Prefix resource, Alias file]
      else Join [Prefix resource, Name file])"
  by (simp add: entry_label_def)

lemma qrcParseQrc_bindings:
  "qrcParseQrc e name =
     (case ReadFile e name of
        Inl err \<Rightarrow> Inl err
      | Inr data \<Rightarrow>
          (case Unmarshal e data of
             Inl err \<Rightarrow> Inl err
           | Inr qrc \<Rightarrow>
               Inr (fold (\<lambda>b. AList.update (fst b) (snd b)) (manifest_bindings name qrc) [])))"
  unfolding qrcParseQrc_def manifest_bindings_def Let_def entry_label_if entry_source_def
  by (simp add: fold_bindings split: sum.splits)

lemma qrcParseQrc2_bindings:
  "qrcParseQrc2 e name =
     (case ReadFile e name of
        Inl err \<Rightarrow> Inl err
      | Inr data \<Rightarrow>
          (case Unmarshal e data of
             Inl err \<Rightarrow> Inl err
           | Inr qrc \<Rightarrow>
               Inr (fold (\<lambda>b. AList.update (fst b) (snd b)) (manifest_bindings name qrc) [])))"
  unfolding qrcParseQrc2_def manifest_bindings_def Let_def entry_label_def entry_source_def
  by (simp add: fold_bindings split: sum.splits)

lemma qrcParseQrc2_eq: "qrcParseQrc2 = qrcParseQrc"
  by (intro ext) (simp add: qrcParseQrc_bindings qrcParseQrc2_bindings)

lemma map_of_store:
  "map_of (fold (\<lambda>b. AList.update (fst b) (snd b)) bs out) = map_of (rev bs @ out)"
  by (induction bs arbitrary: out)
     (auto simp: update_conv' fun_eq_iff map_add_def split: option.splits)

lemma distinct_store:
  "distinct (map fst out) \<Longrightarrow>
   distinct (map fst (fold (\<lambda>b. AList.update (fst b) (snd b)) bs out))"
  by (induction bs arbitrary: out) (auto simp: distinct_update)

lemma one_binding:
  assumes "distinct (map fst out)" and "map_of out l = Some s"
  shows "filter (\<lambda>b. fst b = l) out = [(l, s)]"
  using assms
proof (induction out)
  case Nil
  then show ?case by simp
next
  case (Cons a out)
  show ?case
  proof (cases "fst a = l")
    case True
    then have "a = (l, s)" using Cons.prems by (cases a) auto
    moreover have "l \<notin> fst ` set out"
      using Cons.prems True by auto
    then have "filter (\<lambda>b. fst b = l) out = []"
      by (induction out) auto
    ultimately show ?thesis by simp
  next
    case False
    then show ?thesis using Cons by (cases a) auto
  qed
qed

subsection \<open>The copies in the template\<close>






subsection \<open>The switch of the generated file\<close>

text \<open>
  Claim C9. \<^verbatim>\<open>init\<close> of the generated file repacks exactly when
  \<^verbatim>\<open>QRC_REPACK\<close> is the string \<^verbatim>\<open>1\<close>: then the outcome is that of packing the
  recorded paths again (a panic when that fails). For every other value, the unset
  variable included, the embedded data are parsed and loaded. Both revisions.
\<close>

theorem C9_repack_switch:
  "(Getenv e ''QRC_REPACK'' = ''1'' \<longrightarrow>
      init e d = (case qrcPackResources_tmpl e (SubDirs d) of
                    Inl err \<Rightarrow> Panic ''cannot repack qrc resources: '' (Some err)
                  | Inr data \<Rightarrow>
                      (case ParseResources data of
                         None \<Rightarrow> Panic ''cannot parse bundled resources data: '' None
                       | Some r \<Rightarrow> LoadResources r))
      \<and> init2 e d = (case qrcPackResources2_tmpl e (SubDirs d) of
                    Inl err \<Rightarrow> Panic ''cannot repack qrc resources: '' (Some err)
                  | Inr data \<Rightarrow>
                      (case ParseResources data of
                         None \<Rightarrow> Panic ''cannot parse bundled resources data: '' None
                       | Some r \<Rightarrow> LoadResources r)))
   \<and> (Getenv e ''QRC_REPACK'' \<noteq> ''1'' \<longrightarrow>
      init e d = (case ParseResources (ResourcesData d) of
                    None \<Rightarrow> Panic ''cannot parse bundled resources data: '' None
                  | Some r \<Rightarrow> LoadResources r)
      \<and> init2 e d = init e d)"
  by (simp add: init_def init2_def split: sum.splits)

theorem C9_repack_switch_witness:
  "init sample_repack \<lparr>PackageName = ''main'', SubDirs = [''nope''], ResourcesData = []\<rparr>
     = Panic ''cannot repack qrc resources: ''
         (Some (PathError ''lstat'' ''nope'' ''no such file or directory''))
   \<and> init sample_true \<lparr>PackageName = ''main'', SubDirs = [''nope''], ResourcesData = []\<rparr>
     = LoadResources Map.empty
   \<and> init sample \<lparr>PackageName = ''main'', SubDirs = [''nope''], ResourcesData = []\<rparr>
     = LoadResources Map.empty"
proof -
  let ?d = "\<lparr>PackageName = ''main'', SubDirs = [''nope''], ResourcesData = []\<rparr>"
  have g: "Getenv sample_repack ''QRC_REPACK'' = ''1''"
          "Getenv sample_true ''QRC_REPACK'' \<noteq> ''1''"
          "Getenv sample ''QRC_REPACK'' \<noteq> ''1''"
    by (simp_all add: sample_repack_def sample_true_def sample_def)
  have p: "qrcPackResources_tmpl sample_repack [''nope'']
             = Inl (PathError ''lstat'' ''nope'' ''no such file or directory'')"
    by (simp add: qrcPackResources_tmpl_def qrcPackResources_tmpl_rp_def Walk_def
        walkFn_tmpl_def sample_repack_def sample_def sample_Lstat_def)
  have e: "ParseResources [] = Some Map.empty"
    by (simp add: ParseResources_def)
  show ?thesis
    using C9_repack_switch[of sample_repack ?d] C9_repack_switch[of sample_true ?d]
      C9_repack_switch[of sample ?d] g p e
    by simp
qed

subsection \<open>Manifest expansion\<close>

text \<open>
  Claim C2, as amended. When a manifest is read and decoded, the map that
  \<^verbatim>\<open>qrcParseQrc\<close> returns (the same in both revisions) holds, for every file entry of
  every group, exactly one binding with the entry's label, the join of the group prefix
  with the alias, or with the file name when the alias is empty. The source path of that
  binding is the one of the last entry of the manifest that has this label; it is the
  entry's own source path, the join of the manifest's directory with the file name,
  whenever all entries with this label have that source path.
\<close>

theorem C2_manifest_expansion:
  assumes "ReadFile e name = Inr data" and "Unmarshal e data = Inr qrc"
      and "resource \<in> set (Resources qrc)" and "file \<in> set (Files resource)"
  shows "\<exists>out s. qrcParseQrc e name = Inr out \<and> qrcParseQrc2 e name = Inr out
           \<and> filter (\<lambda>b. fst b = entry_label resource file) out
               = [(entry_label resource file, s)]
           \<and> map_of (rev (manifest_bindings name qrc)) (entry_label resource file) = Some s
           \<and> ((\<forall>b \<in> set (manifest_bindings name qrc).
                  fst b = entry_label resource file \<longrightarrow> snd b = entry_source name file)
                \<longrightarrow> s = entry_source name file)"
proof -
  let ?bs = "manifest_bindings name qrc"
  let ?out = "fold (\<lambda>b. AList.update (fst b) (snd b)) ?bs []"
  let ?l = "entry_label resource file"
  have parse: "qrcParseQrc e name = Inr ?out" "qrcParseQrc2 e name = Inr ?out"
    using assms(1,2) by (simp_all add: qrcParseQrc_bindings qrcParseQrc2_bindings)
  have mem: "(?l, entry_source name file) \<in> set ?bs"
    using assms(3,4) by (auto simp: manifest_bindings_def)
  then have "?l \<in> fst ` set (rev ?bs)" by force
  then obtain s where s: "map_of (rev ?bs) ?l = Some s"
    by (metis domD dom_map_of_conv_image_fst)
  have m: "map_of ?out ?l = Some s"
    using s by (simp add: map_of_store)
  have d: "distinct (map fst ?out)"
    by (rule distinct_store) simp
  have one: "filter (\<lambda>b. fst b = ?l) ?out = [(?l, s)]"
    using d m by (rule one_binding)
  have "(?l, s) \<in> set ?bs"
    using map_of_SomeD[OF s] by simp
  then have last: "(\<forall>b \<in> set ?bs. fst b = ?l \<longrightarrow> snd b = entry_source name file)
                \<longrightarrow> s = entry_source name file"
    by auto
  show ?thesis
    using parse one s last by blast
qed

theorem C2_manifest_expansion_witness:
  "\<exists>out s. qrcParseQrc sample ''dup.qrc'' = Inr out \<and> qrcParseQrc2 sample ''dup.qrc'' = Inr out
     \<and> filter (\<lambda>b. fst b = ''x'') out = [(''x'', s)] \<and> s = ''b.png''"
proof -
  let ?f = "\<lparr>Alias = ''x'', Name = ''b.png''\<rparr>"
  let ?r = "\<lparr>Prefix = [], Files = [\<lparr>Alias = ''x'', Name = ''a.png''\<rparr>, ?f]\<rparr>"
  let ?q = "\<lparr>Resources = [?r]\<rparr>"
  have r: "ReadFile sample ''dup.qrc'' = Inr dup_qrc"
    by (simp add: sample_def sample_ReadFile_def)
  have "dup_qrc \<noteq> bad_qrc"
    by (simp add: dup_qrc_def bad_qrc_def string_bytes_def)
  then have u: "Unmarshal sample dup_qrc = Inr ?q"
    by (simp add: sample_def sample_Unmarshal_def)
  have l: "entry_label ?r ?f = ''x''" by code_simp
  have s: "entry_source ''dup.qrc'' ?f = ''b.png''" by code_simp
  have b: "manifest_bindings ''dup.qrc'' ?q = [(''x'', ''a.png''), (''x'', ''b.png'')]" by code_simp
  show ?thesis
    using C2_manifest_expansion[OF r u, of ?r ?f] unfolding l s b by simp 
qed

text \<open>
  As stated, C2 fails on a manifest whose two entries share a label: the first entry has
  no binding with its own source path.
\<close>

theorem C2_counterexample:
  "ReadFile sample ''dup.qrc'' = Inr dup_qrc
   \<and> Unmarshal sample dup_qrc
       = Inr \<lparr>Resources = [\<lparr>Prefix = [], Files = [\<lparr>Alias = ''x'', Name = ''a.png''\<rparr>,
                                                    \<lparr>Alias = ''x'', Name = ''b.png''\<rparr>]\<rparr>]\<rparr>
   \<and> entry_label \<lparr>Prefix = [], Files = [\<lparr>Alias = ''x'', Name = ''a.png''\<rparr>,
                                         \<lparr>Alias = ''x'', Name = ''b.png''\<rparr>]\<rparr>
                   \<lparr>Alias = ''x'', Name = ''a.png''\<rparr> = ''x''
   \<and> entry_source ''dup.qrc'' \<lparr>Alias = ''x'', Name = ''a.png''\<rparr> = ''a.png''
   \<and> qrcParseQrc sample ''dup.qrc'' = Inr [(''x'', ''b.png'')]
   \<and> qrcParseQrc2 sample ''dup.qrc'' = Inr [(''x'', ''b.png'')]"
  by code_simp

subsection \<open>The cases of the callback\<close>

text \<open>
  Claim C3, as amended. At a walked path with no error, the callback of either revision
  adds nothing for a directory, for a file whose base name is \<^verbatim>\<open>qmldir\<close> and for a
  file with extension \<^verbatim>\<open>.qmltypes\<close>. Any other file whose extension is not
  \<^verbatim>\<open>.qrc\<close> and whose content can be read adds exactly one binding, the slash form of
  its path with its content, in the second revision; in the first revision it does so
  unless its extension is \<^verbatim>\<open>.pri\<close>.
\<close>

theorem C3_exclusion_rules:
  "(info_IsDir info \<or> info_Name info = ''qmldir'' \<or> Ext name = ''.qmltypes'' \<longrightarrow>
      walkFn e name (Some info) None rp = Inr rp
      \<and> walkFn2 e name (Some info) None rp = Inr rp)
   \<and> (\<not> info_IsDir info \<and> info_Name info \<noteq> ''qmldir'' \<and> Ext name \<noteq> ''.qmltypes''
        \<and> Ext name \<noteq> ''.qrc'' \<and> ReadFile e name = Inr data \<longrightarrow>
      (Ext name \<noteq> ''.pri'' \<longrightarrow>
         walkFn e name (Some info) None rp = Inr (rp @ [(ToSlash name, data)]))
      \<and> walkFn2 e name (Some info) None rp = Inr (rp @ [(ToSlash name, data)]))"
  by (simp add: walkFn_def walkFn2_def Add_def Let_def)

theorem C3_exclusion_rules_witness:
  "walkFn sample ''dir'' (Some \<lparr>info_Name = ''dir'', info_IsDir = True\<rparr>) None [] = Inr []
   \<and> walkFn2 sample ''dir/qmldir'' (Some \<lparr>info_Name = ''qmldir'', info_IsDir = False\<rparr>) None [] = Inr []
   \<and> walkFn sample ''dir/x.qmltypes'' (Some \<lparr>info_Name = ''x.qmltypes'', info_IsDir = False\<rparr>) None [] = Inr []
   \<and> walkFn sample ''dir/y.txt'' (Some \<lparr>info_Name = ''y.txt'', info_IsDir = False\<rparr>) None []
       = Inr [(''dir/y.txt'', [104, 105])]
   \<and> walkFn2 sample ''dir/y.txt'' (Some \<lparr>info_Name = ''y.txt'', info_IsDir = False\<rparr>) None []
       = Inr [(''dir/y.txt'', [104, 105])]"
proof -
  have x: "Ext ''dir/x.qmltypes'' = ''.qmltypes''" "Ext ''dir/y.txt'' = ''.txt''" by code_simp+
  have r: "ReadFile sample ''dir/y.txt'' = Inr [104, 105]" by code_simp
  have t: "ToSlash ''dir/y.txt'' = ''dir/y.txt''" by code_simp
  show ?thesis
    using C3_exclusion_rules[of "\<lparr>info_Name = ''dir'', info_IsDir = True\<rparr>" "''dir''" sample "[]"]
      C3_exclusion_rules[of "\<lparr>info_Name = ''qmldir'', info_IsDir = False\<rparr>" "''dir/qmldir''" sample "[]"]
      C3_exclusion_rules[of "\<lparr>info_Name = ''x.qmltypes'', info_IsDir = False\<rparr>" "''dir/x.qmltypes''" sample "[]"]
      C3_exclusion_rules[of "\<lparr>info_Name = ''y.txt'', info_IsDir = False\<rparr>" "''dir/y.txt''" sample "[]" "[104, 105]"]
    by (simp add: x r t)
qed

text \<open>
  As stated, C3 fails in the first revision on a readable file \<^verbatim>\<open>x.pri\<close> met by the
  walk of a directory: it is none of the excluded files and yet adds no binding.
\<close>

theorem C3_counterexample:
  "(''dir/x.pri'', Some \<lparr>info_Name = ''x.pri'', info_IsDir = False\<rparr>, None)
     \<in> set (all_visits sample [''dir''])
   \<and> ReadFile sample ''dir/x.pri'' = Inr []
   \<and> walkFn sample ''dir/x.pri'' (Some \<lparr>info_Name = ''x.pri'', info_IsDir = False\<rparr>) None [] = Inr []
   \<and> qrcPackResources_rp sample [''dir'']
       = Inr [(''dir/a.png'', [137, 80, 78, 71]), (''images/icon.png'', [137, 80, 78, 71]),
              (''images/y.txt'', [104, 105]), (''dir/y.txt'', [104, 105])]"
  by code_simp

text \<open>
  Claim C10. In the first revision a walked path with extension \<^verbatim>\<open>.pri\<close> adds no
  binding. The second revision has no such case: there a file with that extension that is
  not named \<^verbatim>\<open>qmldir\<close> is read and added as any other file.
\<close>

theorem C10_pri_skipped:
  "Ext name = ''.pri'' \<longrightarrow>
     walkFn e name (Some info) None rp = Inr rp
     \<and> (\<not> info_IsDir info \<and> info_Name info \<noteq> ''qmldir'' \<longrightarrow>
          walkFn2 e name (Some info) None rp =
            (case ReadFile e name of
               Inl err \<Rightarrow> Inl err
             | Inr data \<Rightarrow> Inr (rp @ [(ToSlash name, data)])))"
  by (simp add: walkFn_def walkFn2_def Add_def Let_def split: sum.splits)

theorem C10_pri_skipped_witness:
  "walkFn sample ''dir/x.pri'' (Some \<lparr>info_Name = ''x.pri'', info_IsDir = False\<rparr>) None [] = Inr []
   \<and> walkFn2 sample ''dir/x.pri'' (Some \<lparr>info_Name = ''x.pri'', info_IsDir = False\<rparr>) None []
       = Inr [(''dir/x.pri'', [])]"
proof -
  have x: "Ext ''dir/x.pri'' = ''.pri''" by code_simp
  have r: "ReadFile sample ''dir/x.pri'' = Inr []" by code_simp
  have t: "ToSlash ''dir/x.pri'' = ''dir/x.pri''" by code_simp
  show ?thesis
    using C10_pri_skipped[of "''dir/x.pri''" sample "\<lparr>info_Name = ''x.pri'', info_IsDir = False\<rparr>" "[]"]
    by (simp add: x r t)
qed

subsection \<open>A manifest named on the command line\<close>

lemma ext_scan_suffix:
  "ext_scan xs passed = r \<Longrightarrow> r \<noteq> [] \<Longrightarrow> \<exists>ys. rev xs @ passed = ys @ r"
proof (induction xs arbitrary: passed)
  case Nil
  then show ?case by simp
next
  case (Cons c xs)
  then show ?case
    by (auto split: if_splits) 
qed

lemma Ext_suffix: "Ext p = r \<Longrightarrow> r \<noteq> [] \<Longrightarrow> \<exists>ys. p = ys @ r"
  using ext_scan_suffix[of "rev p" "[]" r] by (simp add: Ext_def)

lemma basename_last: "p \<noteq> [] \<Longrightarrow> last p \<noteq> CHR ''/'' \<Longrightarrow> basename p \<noteq> [] \<and> last (basename p) = last p"
proof -
  assume a: "p \<noteq> []" "last p \<noteq> CHR ''/''"
  then obtain l body where r: "rev p = l # body" by (cases "rev p") auto
  then have l: "l = last p" using a by (metis last_rev list.sel(1) rev_rev_ident hd_rev rev_is_Nil_conv)
  have "strip_trailing (l # body) = l # body"
    using a l by (cases body) auto
  then show ?thesis by (simp add: basename_def r l)
qed

lemma qrc_not_qmldir: "Ext p = ''.qrc'' \<Longrightarrow> basename p \<noteq> ''qmldir''"
proof -
  assume "Ext p = ''.qrc''"
  then obtain ys where "p = ys @ ''.qrc''" using Ext_suffix by blast
  then have "p \<noteq> []" "last p = CHR ''c''" by simp_all
  then have "last (basename p) = CHR ''c''" using basename_last by simp
  then show ?thesis by auto
qed

text \<open>
  Claim C4. For an input path that names a file with extension \<^verbatim>\<open>.qrc\<close>, the walk of
  that path parses the file as a manifest and adds, in the order of the range over the
  parsed map, one binding for each of its entries, read from the entry's source path; an
  error of parsing or reading is returned. The file is not added as a resource of its
  own. Both revisions.
\<close>

theorem C4_direct_manifest:
  "Lstat e p = FileNode \<and> Ext p = ''.qrc'' \<longrightarrow>
     Walk e p (walkFn e) rp =
       (case qrcParseQrc e p of
          Inl err \<Rightarrow> Inl err
        | Inr files \<Rightarrow>
            for_each (rangeOrder e files)
              (\<lambda>(label, filename) rp.
                 case ReadFile e filename of
                   Inl err \<Rightarrow> Inl err
                 | Inr data \<Rightarrow> Inr (rp @ [(label, data)])) rp)
     \<and> Walk e p (walkFn2 e) rp = Walk e p (walkFn e) rp"
  unfolding Walk_def walkFn_def walkFn2_def Add_def
  by (simp add: qrc_not_qmldir Let_def qrcParseQrc2_eq)

theorem C4_direct_manifest_witness:
  "Walk sample ''dir/res.qrc'' (walkFn sample) []
     = Inr [(''images/icon.png'', [137, 80, 78, 71]), (''images/y.txt'', [104, 105])]
   \<and> Walk sample ''dir/res.qrc'' (walkFn2 sample) []
     = Inr [(''images/icon.png'', [137, 80, 78, 71]), (''images/y.txt'', [104, 105])]"
proof -
  have l: "Lstat sample ''dir/res.qrc'' = FileNode" by code_simp
  have x: "Ext ''dir/res.qrc'' = ''.qrc''" by code_simp
  have p: "qrcParseQrc sample ''dir/res.qrc''
             = Inr [(''images/icon.png'', ''dir/a.png''), (''images/y.txt'', ''dir/y.txt'')]"
    by code_simp
  have o: "rangeOrder sample = (\<lambda>files. files)" by (simp add: sample_def)
  have r: "ReadFile sample ''dir/a.png'' = Inr [137, 80, 78, 71]"
          "ReadFile sample ''dir/y.txt'' = Inr [104, 105]"
    by code_simp+
  show ?thesis
    using C4_direct_manifest[of sample "''dir/res.qrc''" "[]"]
    by (simp add: l x p o r)
qed

subsection \<open>The packer after a run, visit by visit\<close>

lemma read_loop:
  "for_each files (\<lambda>(label, filename) rp.
       case ReadFile e filename of Inl err \<Rightarrow> Inl err | Inr data \<Rightarrow> Inr (Add label data rp)) rp
   = (case for_each files (\<lambda>(label, filename) rp.
              case ReadFile e filename of Inl err \<Rightarrow> Inl err | Inr data \<Rightarrow> Inr (Add label data rp)) [] of
        Inl err \<Rightarrow> Inl err
      | Inr adds \<Rightarrow> Inr (rp @ adds))"
proof (induction files arbitrary: rp)
  case Nil
  then show ?case by simp
next
  case (Cons a files)
  obtain l f where a: "a = (l, f)" by (cases a)
  show ?case
  proof (cases "ReadFile e f")
    case (Inl x)
    then show ?thesis by (simp add: a)
  next
    case (Inr d)
    show ?thesis
      using Cons.IH[of "Add l d rp"] Cons.IH[of "Add l d []"]
      by (simp add: a Inr Add_def split: sum.splits)
  qed
qed

lemma read_loop_result:
  "for_each files (\<lambda>(label, filename) rp.
       case ReadFile e filename of Inl err \<Rightarrow> Inl err | Inr data \<Rightarrow> Inr (Add label data rp)) rp
   = (if \<exists>p \<in> set files. isl (ReadFile e (snd p))
      then Inl (projl (ReadFile e (snd (hd (filter (\<lambda>p. isl (ReadFile e (snd p))) files)))))
      else Inr (rp @ map (\<lambda>p. (fst p, projr (ReadFile e (snd p)))) files))"
proof (induction files arbitrary: rp)
  case Nil
  then show ?case by simp
next
  case (Cons a files)
  obtain l f where a: "a = (l, f)" by (cases a)
  show ?case
  proof (cases "ReadFile e f")
    case (Inl x)
    then show ?thesis by (simp add: a)
  next
    case (Inr d)
    show ?thesis
      using Cons.IH[of "Add l d rp"]
      by (simp add: a Inr Add_def)
  qed
qed

lemma walkFn_rp:
  "walkFn e name info err rp =
     (case walkFn e name info err [] of Inl x \<Rightarrow> Inl x | Inr adds \<Rightarrow> Inr (rp @ adds))"
  unfolding walkFn_def Let_def
  by (subst read_loop) (simp add: Add_def split: option.splits sum.splits)

lemma walkFn2_rp:
  "walkFn2 e name info err rp =
     (case walkFn2 e name info err [] of Inl x \<Rightarrow> Inl x | Inr adds \<Rightarrow> Inr (rp @ adds))"
  unfolding walkFn2_def Let_def
  by (subst read_loop) (simp add: Add_def split: option.splits sum.splits)

lemma for_each_map:
  "for_each (map f xs) body s = for_each xs (\<lambda>x. body (f x)) s"
  by (induction xs arbitrary: s) (auto split: sum.splits)

lemma Walk_visits:
  "Walk e root fn = for_each (visits root (Lstat e root)) (\<lambda>(n, i, x). fn n i x)"
  by (rule ext) (simp add: Walk_def walk_visits)

lemma qrcPackResources_rp_visits:
  "qrcPackResources_rp e subdirs =
     for_each (all_visits e subdirs) (\<lambda>(n, i, x). walkFn e n i x) []"
  by (simp add: qrcPackResources_rp_def all_visits_def for_each_concat for_each_map Walk_visits)

subsection \<open>Failure\<close>

lemma for_each_isl:
  "x \<in> set xs \<Longrightarrow> (\<And>s. isl (body x s)) \<Longrightarrow> isl (for_each xs body s)"
proof (induction xs arbitrary: s)
  case Nil
  then show ?case by simp
next
  case (Cons y ys)
  show ?case
  proof (cases "body y s")
    case (Inl err)
    then show ?thesis by simp
  next
    case (Inr s')
    then have "y \<noteq> x" using Cons.prems(2)[of s] by auto
    then show ?thesis using Cons Inr by simp
  qed
qed

lemma offending_fails:
  assumes "range_ok e" and "offending e (name, info, err)"
  shows "isl (walkFn e name info err rp)"
proof (cases err)
  case (Some x)
  then show ?thesis by (simp add: walkFn_def)
next
  case None
  then obtain i where i: "info = Some i" and
    a: "\<not> info_IsDir i" "info_Name i \<noteq> ''qmldir''" "Ext name \<noteq> ''.qmltypes''"
       "Ext name \<noteq> ''.pri''" and
    b: "if Ext name = ''.qrc'' then
          (case qrcParseQrc e name of
             Inl err \<Rightarrow> True
           | Inr files \<Rightarrow> \<exists>p \<in> set files. isl (ReadFile e (snd p)))
        else isl (ReadFile e name)"
    using assms(2) by (auto simp: offending_def split: option.splits)
  show ?thesis
  proof (cases "Ext name = ''.qrc''")
    case True
    show ?thesis
    proof (cases "qrcParseQrc e name")
      case (Inl x)
      then show ?thesis using None i a True by (simp add: walkFn_def)
    next
      case (Inr files)
      have "set (rangeOrder e files) = set files"
        using assms(1) by (metis range_ok_def set_mset_mset)
      then have "\<exists>p \<in> set (rangeOrder e files). isl (ReadFile e (snd p))"
        using b True Inr by simp
      then show ?thesis
        using None i a True Inr by (simp add: walkFn_def read_loop_result)
    qed
  next
    case False
    then show ?thesis
      using None i a b by (auto simp: walkFn_def isl_def)
  qed
qed

text \<open>
  Claim C6, as amended. Let a range over a map visit each entry once. If the walk of the
  input paths reaches a path for which it reports an error, a manifest that cannot be
  read or decoded, a manifest binding a file that cannot be read, or a file to bind that
  cannot be read, then \<^verbatim>\<open>qrcPackResources\<close> returns an error and no bytes, whatever
  was added before, and \<^verbatim>\<open>run\<close> returns that error having created no file and
  executed no template. The error is the one the callback returned at a walked path; it
  is passed on as it is.
\<close>

theorem C6_failure_atomicity:
  assumes "range_ok e" and "v \<in> set (all_visits e subdirs)" and "offending e v"
  shows "\<exists>err. qrcPackResources e subdirs = Inl err
           \<and> run e subdirs = \<lparr>returned = Some err, created = [], executed = None\<rparr>
           \<and> (\<exists>(name, info, x) \<in> set (all_visits e subdirs).
                 \<exists>rp. walkFn e name info x rp = Inl err)"
proof -
  obtain name info x where v: "v = (name, info, x)" by (cases v)
  have "isl (qrcPackResources_rp e subdirs)"
    unfolding qrcPackResources_rp_visits
    using assms(2)
  proof (rule for_each_isl)
    fix s
    show "isl ((case v of (n, i, x) \<Rightarrow> walkFn e n i x) s)"
      using offending_fails[OF assms(1)] assms(3) by (simp add: v)
  qed
  then obtain err where err: "qrcPackResources_rp e subdirs = Inl err"
    by (auto simp: isl_def)
  have ne: "subdirs \<noteq> []"
    using assms(2) by (auto simp: all_visits_def)
  have p: "qrcPackResources e subdirs = Inl err"
    by (simp add: qrcPackResources_def err)
  have r: "run e subdirs = \<lparr>returned = Some err, created = [], executed = None\<rparr>"
    using ne by (simp add: run_def p)
  have "\<exists>v' \<in> set (all_visits e subdirs). \<exists>rp. (case v' of (n, i, x) \<Rightarrow> walkFn e n i x) rp = Inl err"
    using for_each_Inl[OF err[unfolded qrcPackResources_rp_visits]] .
  then have o: "\<exists>(name, info, x) \<in> set (all_visits e subdirs). \<exists>rp. walkFn e name info x rp = Inl err"
    by (auto split: prod.splits) 
  show ?thesis using p r o by blast
qed


lemma range_ok_sample: "range_ok sample"
  by (simp add: range_ok_def sample_def)

theorem C6_failure_atomicity_witness:
  "qrcPackResources sample [''dir'', ''bad.qrc''] = Inl (SyntaxError ''unexpected EOF'' 1)
   \<and> run sample [''dir'', ''bad.qrc'']
       = \<lparr>returned = Some (SyntaxError ''unexpected EOF'' 1), created = [], executed = None\<rparr>"
proof -
  let ?v = "(''bad.qrc'', Some \<lparr>info_Name = ''bad.qrc'', info_IsDir = False\<rparr>, None)"
  have v: "?v \<in> set (all_visits sample [''dir'', ''bad.qrc''])" by code_simp
  have o: "offending sample ?v" by code_simp
  have c: "qrcPackResources sample [''dir'', ''bad.qrc''] = Inl (SyntaxError ''unexpected EOF'' 1)"
    by code_simp
  show ?thesis
    using C6_failure_atomicity[OF range_ok_sample v o] c by auto
qed

text \<open>
  As stated, C6 fails where it has the error identify the offending path: the error of a
  malformed manifest is the decoder's, which is given the bytes and not the path. Two
  manifests at different paths with the same content yield the same error, one that
  names no path.
\<close>

theorem C6_counterexample:
  "Lstat sample ''bad.qrc'' = FileNode
   \<and> ReadFile sample ''bad.qrc'' = Inr bad_qrc
   \<and> Unmarshal sample bad_qrc = Inl (SyntaxError ''unexpected EOF'' 1)
   \<and> qrcPackResources sample [''bad.qrc''] = Inl (SyntaxError ''unexpected EOF'' 1)
   \<and> qrcPackResources sample [''other/bad.qrc''] = Inl (SyntaxError ''unexpected EOF'' 1)
   \<and> error_path (SyntaxError ''unexpected EOF'' 1) = None"
  by code_simp

subsection \<open>Labels\<close>












lemma qrcPackResources2_rp_visits:
  "qrcPackResources2_rp e subdirs =
     for_each (all_visits e subdirs) (\<lambda>(n, i, x). walkFn2 e n i x) []"
  by (simp add: qrcPackResources2_rp_def all_visits_def for_each_concat for_each_map Walk_visits)













subsection \<open>Two runs on the same files\<close>

text \<open>A run adds what each visit adds, in the order of the visits, up to the first visit that
  fails.\<close>

lemma for_each_collect:
  assumes "\<And>x s. body x s = (case h x of Inl err \<Rightarrow> Inl err | Inr adds \<Rightarrow> Inr (s @ adds))"
  shows "for_each xs body s =
     (if \<exists>x \<in> set xs. isl (h x)
      then Inl (projl (h (hd (filter (\<lambda>x. isl (h x)) xs))))
      else Inr (s @ concat (map (\<lambda>x. projr (h x)) xs)))"
proof (induction xs arbitrary: s)
  case Nil
  then show ?case by simp
next
  case (Cons x xs)
  show ?case
  proof (cases "h x")
    case (Inl err)
    then show ?thesis by (simp add: assms)
  next
    case (Inr adds)
    then show ?thesis using Cons.IH[of "s @ adds"] by (simp add: assms)
  qed
qed

lemma visits_collect:
  assumes "\<And>n i x s. fn n i x s =
             (case fn n i x [] of Inl err \<Rightarrow> Inl err | Inr adds \<Rightarrow> Inr (s @ adds))"
  shows "for_each vs (\<lambda>(n, i, x). fn n i x) [] =
     (if \<exists>v \<in> set vs. isl (adds_at fn v)
      then Inl (projl (adds_at fn (hd (filter (\<lambda>v. isl (adds_at fn v)) vs))))
      else Inr (concat (map (\<lambda>v. projr (adds_at fn v)) vs)))"
proof -
  have "for_each vs (\<lambda>(n, i, x). fn n i x) [] =
     (if \<exists>v \<in> set vs. isl (adds_at fn v)
      then Inl (projl (adds_at fn (hd (filter (\<lambda>v. isl (adds_at fn v)) vs))))
      else Inr ([] @ concat (map (\<lambda>v. projr (adds_at fn v)) vs)))"
  proof (rule for_each_collect)
    fix v :: visit and s
    obtain n i x where v: "v = (n, i, x)" by (cases v)
    show "(case v of (n, i, x) \<Rightarrow> fn n i x) s =
         (case adds_at fn v of Inl err \<Rightarrow> Inl err | Inr adds \<Rightarrow> Inr (s @ adds))"
      unfolding v adds_at_def prod.case by (rule assms)
  qed
  then show ?thesis by simp
qed

lemma qrcPackResources_rp_adds:
  "qrcPackResources_rp e subdirs =
     (if \<exists>v \<in> set (all_visits e subdirs). isl (adds_at (walkFn e) v)
      then Inl (projl (adds_at (walkFn e)
                  (hd (filter (\<lambda>v. isl (adds_at (walkFn e) v)) (all_visits e subdirs)))))
      else Inr (concat (map (\<lambda>v. projr (adds_at (walkFn e) v)) (all_visits e subdirs))))"
  unfolding qrcPackResources_rp_visits by (rule visits_collect) (rule walkFn_rp)

lemma qrcPackResources2_rp_adds:
  "qrcPackResources2_rp e subdirs =
     (if \<exists>v \<in> set (all_visits e subdirs). isl (adds_at (walkFn2 e) v)
      then Inl (projl (adds_at (walkFn2 e)
                  (hd (filter (\<lambda>v. isl (adds_at (walkFn2 e) v)) (all_visits e subdirs)))))
      else Inr (concat (map (\<lambda>v. projr (adds_at (walkFn2 e) v)) (all_visits e subdirs))))"
  unfolding qrcPackResources2_rp_visits by (rule visits_collect) (rule walkFn2_rp)

lemma mset_concat_map:
  "(\<And>x. x \<in> set xs \<Longrightarrow> mset (f x) = mset (g x)) \<Longrightarrow>
   mset (concat (map f xs)) = mset (concat (map g xs))"
  by (induction xs) simp_all

lemma collect_perm:
  assumes "\<And>n i x s. f n i x s =
             (case f n i x [] of Inl err \<Rightarrow> Inl err | Inr adds \<Rightarrow> Inr (s @ adds))"
      and "\<And>n i x s. g n i x s =
             (case g n i x [] of Inl err \<Rightarrow> Inl err | Inr adds \<Rightarrow> Inr (s @ adds))"
      and "\<And>v. isl (adds_at f v) = isl (adds_at g v)"
      and "\<And>v. \<not> isl (adds_at g v) \<Longrightarrow>
             mset (projr (adds_at f v)) = mset (projr (adds_at g v))"
  shows "isl (for_each vs (\<lambda>(n, i, x). f n i x) []) = isl (for_each vs (\<lambda>(n, i, x). g n i x) [])
       \<and> (\<forall>a b. for_each vs (\<lambda>(n, i, x). f n i x) [] = Inr a
               \<longrightarrow> for_each vs (\<lambda>(n, i, x). g n i x) [] = Inr b \<longrightarrow> mset a = mset b)"
proof (cases "\<exists>v \<in> set vs. isl (adds_at g v)")
  case True
  then show ?thesis
    unfolding visits_collect[of f, OF assms(1)] visits_collect[of g, OF assms(2)] assms(3)
    by simp
next
  case False
  have "mset (concat (map (\<lambda>v. projr (adds_at f v)) vs))
      = mset (concat (map (\<lambda>v. projr (adds_at g v)) vs))"
    by (rule mset_concat_map) (use False assms(4) in blast)
  then show ?thesis
    unfolding visits_collect[of f, OF assms(1)] visits_collect[of g, OF assms(2)] assms(3)
    using False by simp
qed

lemma qrcParseQrc_same: "same_files e1 e2 \<Longrightarrow> qrcParseQrc e1 name = qrcParseQrc e2 name"
  by (auto simp: same_files_def qrcParseQrc_bindings split: sum.splits)

lemma walkFn_perm:
  assumes "same_files e1 e2" and "range_ok e1" and "range_ok e2"
  shows "isl (walkFn e1 name info err []) = isl (walkFn e2 name info err [])"
    and "\<not> isl (walkFn e2 name info err []) \<Longrightarrow>
         mset (projr (walkFn e1 name info err [])) = mset (projr (walkFn e2 name info err []))"
proof -
  have rf: "ReadFile e1 = ReadFile e2" using assms(1) by (simp add: same_files_def)
  have ms: "\<And>files. mset (rangeOrder e1 files) = mset (rangeOrder e2 files)"
    using assms(2,3) by (simp add: range_ok_def)
  then have st: "\<And>files. set (rangeOrder e1 files) = set (rangeOrder e2 files)"
    by (metis set_mset_mset)
  have mm: "\<And>files h. image_mset h (mset (rangeOrder e1 files))
                 = image_mset h (mset (rangeOrder e2 files))"
    using ms by simp
  show "isl (walkFn e1 name info err []) = isl (walkFn e2 name info err [])"
    unfolding walkFn_def Let_def qrcParseQrc_same[OF assms(1)] read_loop_result
    by (simp add: rf st split: option.splits sum.splits)
  show "\<not> isl (walkFn e2 name info err []) \<Longrightarrow>
        mset (projr (walkFn e1 name info err [])) = mset (projr (walkFn e2 name info err []))"
    unfolding walkFn_def Let_def qrcParseQrc_same[OF assms(1)] read_loop_result
    by (simp add: rf st mm split: option.splits sum.splits if_splits)
qed

lemma walkFn2_perm:
  assumes "same_files e1 e2" and "range_ok e1" and "range_ok e2"
  shows "isl (walkFn2 e1 name info err []) = isl (walkFn2 e2 name info err [])"
    and "\<not> isl (walkFn2 e2 name info err []) \<Longrightarrow>
         mset (projr (walkFn2 e1 name info err [])) = mset (projr (walkFn2 e2 name info err []))"
proof -
  have rf: "ReadFile e1 = ReadFile e2" using assms(1) by (simp add: same_files_def)
  have ms: "\<And>files. mset (rangeOrder e1 files) = mset (rangeOrder e2 files)"
    using assms(2,3) by (simp add: range_ok_def)
  then have st: "\<And>files. set (rangeOrder e1 files) = set (rangeOrder e2 files)"
    by (metis set_mset_mset)
  have mm: "\<And>files h. image_mset h (mset (rangeOrder e1 files))
                 = image_mset h (mset (rangeOrder e2 files))"
    using ms by simp
  show "isl (walkFn2 e1 name info err []) = isl (walkFn2 e2 name info err [])"
    unfolding walkFn2_def Let_def qrcParseQrc2_eq qrcParseQrc_same[OF assms(1)] read_loop_result
    by (simp add: rf st split: option.splits sum.splits)
  show "\<not> isl (walkFn2 e2 name info err []) \<Longrightarrow>
        mset (projr (walkFn2 e1 name info err [])) = mset (projr (walkFn2 e2 name info err []))"
    unfolding walkFn2_def Let_def qrcParseQrc2_eq qrcParseQrc_same[OF assms(1)] read_loop_result
    by (simp add: rf st mm split: option.splits sum.splits if_splits)
qed


lemma all_visits_same: "same_files e1 e2 \<Longrightarrow> all_visits e1 subdirs = all_visits e2 subdirs"
  by (simp add: same_files_def all_visits_def)

lemma walkFn_same:
  assumes "same_files e1 e2" and "rangeOrder e1 = rangeOrder e2"
  shows "walkFn e1 = walkFn e2" and "walkFn2 e1 = walkFn2 e2"
proof -
  have eq: "ReadFile e1 = ReadFile e2" "Unmarshal e1 = Unmarshal e2"
    using assms(1) by (simp_all add: same_files_def)
  show "walkFn e1 = walkFn e2"
    unfolding walkFn_def qrcParseQrc_def eq assms(2) by (rule refl)
  show "walkFn2 e1 = walkFn2 e2"
    unfolding walkFn2_def qrcParseQrc2_def eq assms(2) by (rule refl)
qed

text \<open>
  Claim C1, as amended. Take two runs on the same file system and the same input paths,
  in each of which a range over a map visits each entry once. Then both fail or both
  succeed, and when they succeed they have added the same bindings to the packer, each
  as many times, possibly in a different order. When the two runs range over maps in the
  same order they add the bindings in the same order and return the same bytes. Both
  revisions.
\<close>

theorem C1_determinism_up_to_range_order:
  assumes "same_files e1 e2" and "range_ok e1" and "range_ok e2"
  shows "isl (qrcPackResources_rp e1 subdirs) = isl (qrcPackResources_rp e2 subdirs)
       \<and> (\<forall>a b. qrcPackResources_rp e1 subdirs = Inr a
               \<longrightarrow> qrcPackResources_rp e2 subdirs = Inr b \<longrightarrow> mset a = mset b)
       \<and> isl (qrcPackResources2_rp e1 subdirs) = isl (qrcPackResources2_rp e2 subdirs)
       \<and> (\<forall>a b. qrcPackResources2_rp e1 subdirs = Inr a
               \<longrightarrow> qrcPackResources2_rp e2 subdirs = Inr b \<longrightarrow> mset a = mset b)
       \<and> (rangeOrder e1 = rangeOrder e2 \<longrightarrow>
            qrcPackResources_rp e1 subdirs = qrcPackResources_rp e2 subdirs
            \<and> qrcPackResources e1 subdirs = qrcPackResources e2 subdirs
            \<and> qrcPackResources2_rp e1 subdirs = qrcPackResources2_rp e2 subdirs
            \<and> qrcPackResources2 e1 subdirs = qrcPackResources2 e2 subdirs)"
proof -
  note v = all_visits_same[OF assms(1), of subdirs]
  have one: "isl (qrcPackResources_rp e1 subdirs) = isl (qrcPackResources_rp e2 subdirs)
       \<and> (\<forall>a b. qrcPackResources_rp e1 subdirs = Inr a
               \<longrightarrow> qrcPackResources_rp e2 subdirs = Inr b \<longrightarrow> mset a = mset b)"
    unfolding qrcPackResources_rp_visits v
  proof (rule collect_perm)
    show "walkFn e1 n i x s =
        (case walkFn e1 n i x [] of Inl err \<Rightarrow> Inl err | Inr adds \<Rightarrow> Inr (s @ adds))" for n i x s
      by (rule walkFn_rp)
    show "walkFn e2 n i x s =
        (case walkFn e2 n i x [] of Inl err \<Rightarrow> Inl err | Inr adds \<Rightarrow> Inr (s @ adds))" for n i x s
      by (rule walkFn_rp)
    show "isl (adds_at (walkFn e1) v) = isl (adds_at (walkFn e2) v)" for v
      using walkFn_perm(1)[OF assms] by (cases v) (simp add: adds_at_def)
    show "\<not> isl (adds_at (walkFn e2) v) \<Longrightarrow>
        mset (projr (adds_at (walkFn e1) v)) = mset (projr (adds_at (walkFn e2) v))" for v
      using walkFn_perm(2)[OF assms] by (cases v) (simp add: adds_at_def)
  qed
  have two: "isl (qrcPackResources2_rp e1 subdirs) = isl (qrcPackResources2_rp e2 subdirs)
       \<and> (\<forall>a b. qrcPackResources2_rp e1 subdirs = Inr a
               \<longrightarrow> qrcPackResources2_rp e2 subdirs = Inr b \<longrightarrow> mset a = mset b)"
    unfolding qrcPackResources2_rp_visits v
  proof (rule collect_perm)
    show "walkFn2 e1 n i x s =
        (case walkFn2 e1 n i x [] of Inl err \<Rightarrow> Inl err | Inr adds \<Rightarrow> Inr (s @ adds))" for n i x s
      by (rule walkFn2_rp)
    show "walkFn2 e2 n i x s =
        (case walkFn2 e2 n i x [] of Inl err \<Rightarrow> Inl err | Inr adds \<Rightarrow> Inr (s @ adds))" for n i x s
      by (rule walkFn2_rp)
    show "isl (adds_at (walkFn2 e1) v) = isl (adds_at (walkFn2 e2) v)" for v
      using walkFn2_perm(1)[OF assms] by (cases v) (simp add: adds_at_def)
    show "\<not> isl (adds_at (walkFn2 e2) v) \<Longrightarrow>
        mset (projr (adds_at (walkFn2 e1) v)) = mset (projr (adds_at (walkFn2 e2) v))" for v
      using walkFn2_perm(2)[OF assms] by (cases v) (simp add: adds_at_def)
  qed
  have three: "rangeOrder e1 = rangeOrder e2 \<Longrightarrow>
            qrcPackResources_rp e1 subdirs = qrcPackResources_rp e2 subdirs
            \<and> qrcPackResources e1 subdirs = qrcPackResources e2 subdirs
            \<and> qrcPackResources2_rp e1 subdirs = qrcPackResources2_rp e2 subdirs
            \<and> qrcPackResources2 e1 subdirs = qrcPackResources2 e2 subdirs"
    using walkFn_same[OF assms(1)] v
    by (simp add: qrcPackResources_def qrcPackResources2_def qrcPackResources_rp_visits
        qrcPackResources2_rp_visits)
  show ?thesis using one two three by blast
qed

lemma same_files_sample_rev: "same_files sample sample_rev"
  by (simp add: same_files_def sample_rev_def)

lemma range_ok_sample_rev: "range_ok sample_rev"
  by (simp add: range_ok_def sample_rev_def)

theorem C1_determinism_up_to_range_order_witness:
  "qrcPackResources_rp sample [''dir'']
     = Inr [(''dir/a.png'', [137, 80, 78, 71]), (''images/icon.png'', [137, 80, 78, 71]),
            (''images/y.txt'', [104, 105]), (''dir/y.txt'', [104, 105])]
   \<and> qrcPackResources_rp sample_rev [''dir'']
     = Inr [(''dir/a.png'', [137, 80, 78, 71]), (''images/y.txt'', [104, 105]),
            (''images/icon.png'', [137, 80, 78, 71]), (''dir/y.txt'', [104, 105])]
   \<and> mset [(''dir/a.png'', [137, 80, 78, 71 :: 8 word]), (''images/icon.png'', [137, 80, 78, 71]),
            (''images/y.txt'', [104, 105]), (''dir/y.txt'', [104, 105])]
     = mset [(''dir/a.png'', [137, 80, 78, 71]), (''images/y.txt'', [104, 105]),
            (''images/icon.png'', [137, 80, 78, 71]), (''dir/y.txt'', [104, 105])]"
proof -
  have a: "qrcPackResources_rp sample [''dir'']
     = Inr [(''dir/a.png'', [137, 80, 78, 71]), (''images/icon.png'', [137, 80, 78, 71]),
            (''images/y.txt'', [104, 105]), (''dir/y.txt'', [104, 105])]"
    by code_simp
  have b: "qrcPackResources_rp sample_rev [''dir'']
     = Inr [(''dir/a.png'', [137, 80, 78, 71]), (''images/y.txt'', [104, 105]),
            (''images/icon.png'', [137, 80, 78, 71]), (''dir/y.txt'', [104, 105])]"
    by code_simp
  show ?thesis
    using C1_determinism_up_to_range_order[OF same_files_sample_rev range_ok_sample
        range_ok_sample_rev, of "[''dir'']"]
    unfolding a b by blast
qed

text \<open>
  As stated, C1 fails: the pairs of a manifest are added in the order of a range over a
  Go map, which differs from run to run. On the same file system one run adds the two
  bindings of \<^verbatim>\<open>dir/res.qrc\<close> in one order and another run in the opposite order,
  and the packed bytes, which keep the order of insertion, differ.
\<close>

theorem C1_counterexample:
  "Lstat sample_rev = Lstat sample \<and> ReadFile sample_rev = ReadFile sample
   \<and> Unmarshal sample_rev = Unmarshal sample
   \<and> qrcPackResources_rp sample [''dir/res.qrc'']
       = Inr [(''images/icon.png'', [137, 80, 78, 71]), (''images/y.txt'', [104, 105])]
   \<and> qrcPackResources_rp sample_rev [''dir/res.qrc'']
       = Inr [(''images/y.txt'', [104, 105]), (''images/icon.png'', [137, 80, 78, 71])]
   \<and> qrcPackResources2_rp sample_rev [''dir/res.qrc'']
       = Inr [(''images/y.txt'', [104, 105]), (''images/icon.png'', [137, 80, 78, 71])]
   \<and> qrcPackResources sample [''dir/res.qrc''] \<noteq> qrcPackResources sample_rev [''dir/res.qrc'']"
proof -
  have f: "Lstat sample_rev = Lstat sample \<and> ReadFile sample_rev = ReadFile sample
   \<and> Unmarshal sample_rev = Unmarshal sample"
    by (simp add: sample_rev_def)
  have a: "qrcPackResources_rp sample [''dir/res.qrc'']
       = Inr [(''images/icon.png'', [137, 80, 78, 71]), (''images/y.txt'', [104, 105])]"
    by code_simp
  have b: "qrcPackResources_rp sample_rev [''dir/res.qrc'']
       = Inr [(''images/y.txt'', [104, 105]), (''images/icon.png'', [137, 80, 78, 71])]"
    by code_simp
  have b2: "qrcPackResources2_rp sample_rev [''dir/res.qrc'']
       = Inr [(''images/y.txt'', [104, 105]), (''images/icon.png'', [137, 80, 78, 71])]"
    by code_simp
  have c: "qrcPackResources sample [''dir/res.qrc''] \<noteq> qrcPackResources sample_rev [''dir/res.qrc'']"
    by code_simp
  show ?thesis using f a b b2 c by blast
qed

subsection \<open>Packing and parsing\<close>

lemma unat_byte: "n < 256 \<Longrightarrow> unat (of_nat n :: 8 word) = n"
  by (simp add: unat_of_nat)

lemma get_put_len: "get_len (put_len n @ rest) = Some (n, rest)"
proof (induction n rule: put_len.induct)
  case (1 n)
  show ?case
  proof (cases "n < 128")
    case True
    then show ?thesis by (subst put_len.simps) (simp add: unat_byte)
  next
    case False
    have b: "unat (128 + word_of_nat (n mod 128) :: 8 word) = 128 + n mod 128"
      using unat_byte[of "128 + n mod 128"] by simp
    show ?thesis
      using False 1[OF False] by (subst put_len.simps) (simp add: b)
  qed
qed

lemma put_len_not_empty: "put_len n \<noteq> []"
  by (subst put_len.simps) simp

lemma bytes_string_bytes: "bytes_string (string_bytes s) = s"
  by (induction s) (simp_all add: bytes_string_def string_bytes_def unat_byte)

lemma length_string_bytes: "length (string_bytes s) = length s"
  by (simp add: string_bytes_def)

lemma get_put_field: "get_field (put_len (length x) @ x @ rest) = Some (x, rest)"
  by (simp add: get_field_def get_put_len)

lemma get_put_entries:
  "length rp \<le> fuel \<Longrightarrow> get_entries fuel (Pack rp) = Some rp"
proof (induction rp arbitrary: fuel)
  case Nil
  then show ?case by (simp add: Pack_def)
next
  case (Cons p rp)
  obtain l d where p: "p = (l, d)" by (cases p)
  obtain f where f: "fuel = Suc f" and le: "length rp \<le> f"
    using Cons.prems by (cases fuel) auto
  have e: "Pack (p # rp) = put_len (length (string_bytes l)) @ string_bytes l
                           @ put_len (length d) @ d @ Pack rp"
    by (simp add: Pack_def put_entry_def p length_string_bytes)
  have "Pack (p # rp) \<noteq> []"
    using put_len_not_empty[of "length l"] by (simp add: e length_string_bytes)
  then obtain b bs where c: "Pack (p # rp) = b # bs"
    by (cases "Pack (p # rp)") auto
  have "get_entries (Suc f) (b # bs) =
          (case get_field (b # bs) of
             None \<Rightarrow> None
           | Some (l, rest) \<Rightarrow>
               (case get_field rest of
                  None \<Rightarrow> None
                | Some (d, rest') \<Rightarrow>
                    (case get_entries f rest' of
                       None \<Rightarrow> None
                     | Some es \<Rightarrow> Some ((bytes_string l, d) # es))))"
    by simp
  also have "\<dots> = Some ((l, d) # rp)"
    unfolding c[symmetric] e
    by (simp add: get_put_field Cons.IH[OF le] bytes_string_bytes)
  finally have "get_entries (Suc f) (b # bs) = Some (p # rp)"
    by (simp add: p)
  then show ?case by (simp add: f c)
qed

lemma length_Pack: "length rp \<le> length (Pack rp)"
proof (induction rp)
  case Nil
  then show ?case by simp
next
  case (Cons p rp)
  have "1 \<le> length (put_entry p)"
    using put_len_not_empty[of "length (fst p)"]
    by (cases "put_len (length (fst p))") (auto simp: put_entry_def)
  then show ?case using Cons by (simp add: Pack_def)
qed

lemma fold_update_map_of:
  "fold (\<lambda>p m. m(fst p \<mapsto> snd p)) rp m = m ++ map_of (rev rp)"
  by (induction rp arbitrary: m) (auto simp: map_add_def fun_eq_iff split: option.splits)

lemma map_of_rev_distinct: "distinct (map fst rp) \<Longrightarrow> map_of (rev rp) = map_of rp"
  by (rule map_of_inject_set[THEN iffD2]) (simp_all add: rev_map[symmetric])

text \<open>
  Claim C8. Parsing the bytes the packer produces gives back the mapping from label to
  content of the bindings added, the last write winning on a repeated label; for
  bindings with distinct labels this is the mapping that takes each label to its
  content. In particular the bytes \<^verbatim>\<open>qrcPackResources\<close> returns parse back to the
  bindings its walk added, whose contents are the bytes read from the source paths.
\<close>

theorem C8_round_trip:
  "ParseResources (Pack rp) = Some (fold (\<lambda>p m. m(fst p \<mapsto> snd p)) rp Map.empty)
   \<and> (distinct (map fst rp) \<longrightarrow> ParseResources (Pack rp) = Some (map_of rp))
   \<and> (\<forall>bs. qrcPackResources e subdirs = Inr bs \<longrightarrow>
        (\<exists>added. qrcPackResources_rp e subdirs = Inr added
           \<and> ParseResources bs = Some (fold (\<lambda>p m. m(fst p \<mapsto> snd p)) added Map.empty)))"
proof -
  have a: "ParseResources (Pack rp) = Some (fold (\<lambda>p m. m(fst p \<mapsto> snd p)) rp Map.empty)" for rp
    by (simp add: ParseResources_def get_put_entries[OF length_Pack])
  have b: "distinct (map fst rp) \<Longrightarrow> ParseResources (Pack rp) = Some (map_of rp)"
    by (simp add: a fold_update_map_of map_of_rev_distinct)
  have c: "qrcPackResources e subdirs = Inr bs \<Longrightarrow>
        (\<exists>added. qrcPackResources_rp e subdirs = Inr added
           \<and> ParseResources bs = Some (fold (\<lambda>p m. m(fst p \<mapsto> snd p)) added Map.empty))" for bs
    by (auto simp: qrcPackResources_def a split: sum.splits)
  show ?thesis using a b c by blast
qed


theorem C8_round_trip_witness:
  "ParseResources (Pack [(''a'', [1]), (''b'', [2, 3])])
     = Some (map_of [(''a'', [1]), (''b'', [2, 3])])
   \<and> qrcPackResources sample [''/a''] = Inr [2, 47, 97, 1, 7]
   \<and> ParseResources [2, 47, 97, 1, 7] = Some (map_of [(''/a'', [7])])"
proof -
  have p: "qrcPackResources sample [''/a''] = Inr [2, 47, 97, 1, 7]"
    by code_simp
  have r: "qrcPackResources_rp sample [''/a''] = Inr [(''/a'', [7])]"
    by code_simp
  note t = C8_round_trip[of "[(''a'', [1]), (''b'', [2, 3])]" sample "[''/a'']"]
  have "distinct (map fst [(''a'', [1 :: 8 word]), (''b'', [2, 3])])"
    by simp
  then have a: "ParseResources (Pack [(''a'', [1]), (''b'', [2, 3])])
                  = Some (map_of [(''a'', [1]), (''b'', [2, 3])])"
    using t by blast
  have c: "ParseResources [2, 47, 97, 1, 7]
             = Some (fold (\<lambda>p m. m(fst p \<mapsto> snd p)) [(''/a'', [7])] Map.empty)"
    using t p r by auto
  show ?thesis
    using a c p by simp
qed

end
